theory Spec2Isabelle
  imports Complex_Main
begin

section \<open>Survival-comparison engine: log-rank test and Cox-PH approximation\<close>

text \<open>
  A shallow embedding of \<^verbatim>\<open>logRankTest\<close>, \<^verbatim>\<open>chiSquarePValue\<close>,
  \<^verbatim>\<open>estimateCoxPH\<close>, \<^verbatim>\<open>normalCDF\<close>, \<^verbatim>\<open>chiSquareCDF\<close>,
  \<^verbatim>\<open>gammainc\<close> and \<^verbatim>\<open>gammaLn\<close> of \<^verbatim>\<open>src/lib\<close>, and of the
  curve clean-up that the \<^verbatim>\<open>SurvivalCurve\<close> component performs before drawing.

  Numbers: a JavaScript \<^verbatim>\<open>number\<close> is modelled as a \<^typ>\<open>real\<close>, so every
  statement below is about exact arithmetic; rounding, overflow, \<^verbatim>\<open>NaN\<close> and
  \<^verbatim>\<open>Infinity\<close> are outside the model. \<^verbatim>\<open>Math.round\<close> rounds half up, which is
  \<^const>\<open>round\<close> on the reals. \<^verbatim>\<open>Math.sqrt\<close> and \<^verbatim>\<open>Math.log\<close> agree with
  \<^const>\<open>sqrt\<close> and \<^const>\<open>ln\<close> on the arguments where JavaScript returns a number;
  the theorems that depend on such an argument say so in a hypothesis.
\<close>

subsection \<open>Data model\<close>

record SurvivalTimePoint =
  time :: real
  survival :: real
  censored :: "real option"
  events :: "real option"
  atRisk :: "real option"

record SurvivalData =
  subtype :: string
  timePoints :: "SurvivalTimePoint list"

record LogRankResult =
  pValue :: real
  chiSquare :: real
  degreesOfFreedom :: nat

text \<open>
  A JavaScript \<^verbatim>\<open>Map\<close> keeps its keys in the order of their first insertion;
  \<^verbatim>\<open>set\<close> on a key that is present replaces the value in place. It is an
  association list here, with \<^const>\<open>map_of\<close> for \<^verbatim>\<open>get\<close>.
\<close>

fun map_set :: "'k \<Rightarrow> 'v \<Rightarrow> ('k \<times> 'v) list \<Rightarrow> ('k \<times> 'v) list" where
  "map_set k v [] = [(k, v)]"
| "map_set k v ((k', v') # m) =
     (if k' = k then (k, v) # m else (k', v') # map_set k v m)"

record GroupData =
  g_subtype :: string
  timePointMap :: "(real \<times> real) list"
  g_events :: "(real \<times> real) list"
  initialCount :: real

subsection \<open>The chi-square p-value of the log-rank module\<close>

text \<open>The loop of the path for more than one degree of freedom: at most 100 terms.\<close>

function seriesLoop :: "real \<Rightarrow> real \<Rightarrow> nat \<Rightarrow> real \<Rightarrow> real \<Rightarrow> real" where
  "seriesLoop x k i trm sm =
     (if i < 100 then
        (let trm' = trm * (x / (k + real i));
             sm' = sm + trm'
         in if trm' < 1 / 10 ^ 10 then sm' else seriesLoop x k (Suc i) trm' sm')
      else sm)"
  by pat_completeness auto
termination
  by (relation "measure (\<lambda>(x, k, i, trm, sm). 100 - i)") auto

definition chiSquarePValue :: "real \<Rightarrow> nat \<Rightarrow> real" where
  "chiSquarePValue chiSq dof =
     (if dof = 1 then
        (let z = sqrt chiSq;
             a1 = 0.254829592;
             a2 = - 0.284496736;
             a3 = 1.421413741;
             a4 = - 1.453152027;
             a5 = 1.061405429;
             p = 0.3275911;
             sign = (if z < 0 then - 1 else 1);
             absZ = \<bar>z\<bar>;
             t = 1 / (1 + p * absZ);
             y = 1 - (((((a5 * t + a4) * t) + a3) * t + a2) * t + a1) * t
                     * exp (- absZ * absZ / 2);
             normalCDF_inline = 0.5 * (1 + sign * y)
         in 2 * (1 - normalCDF_inline))
      else
        (let k = real dof / 2;
             x = chiSq / 2;
             sm = seriesLoop x k 0 1 0;
             gamma = exp (- x) * (x powr k) * sm / k
         in max 0 (min 1 (1 - gamma))))"

subsection \<open>The log-rank test\<close>

text \<open>
  \<^verbatim>\<open>logRankTest\<close> has a single parameter, the list of groups; a second argument at a
  call site is dropped. Its guard \<^verbatim>\<open>!survivalData\<close> is for an absent list, which the
  parameter type excludes, so the model starts at the length test. The sums
  \<^verbatim>\<open>totalEvents\<close> and \<^verbatim>\<open>totalAtRisk\<close> are accumulated group by group in the code and
  written with \<^const>\<open>sum_list\<close> here.
\<close>

definition sortedTimesOf :: "SurvivalData list \<Rightarrow> real list" where
  "sortedTimesOf survivalData =
     sort (remdups (concat (map (\<lambda>group. map time (timePoints group)) survivalData)))"

definition buildTimePointMap :: "SurvivalTimePoint list \<Rightarrow> (real \<times> real) list" where
  "buildTimePointMap tps = foldl (\<lambda>m tp. map_set (time tp) (survival tp) m) [] tps"

text \<open>
  The loop that estimates the events of one group: it walks the global grid, carries the
  previous survival of the group, and records an event where the survival dropped by more
  than 0.001.
\<close>

fun eventsLoop ::
  "(real \<times> real) list \<Rightarrow> real list \<Rightarrow> real \<Rightarrow> (real \<times> real) list \<Rightarrow> (real \<times> real) list" where
  "eventsLoop tpm [] prevSurvival ev = ev"
| "eventsLoop tpm (t # ts) prevSurvival ev =
     (case map_of tpm t of
        None \<Rightarrow> eventsLoop tpm ts prevSurvival ev
      | Some s \<Rightarrow>
          (let survivalDrop = prevSurvival - s
           in eventsLoop tpm ts s
                (if survivalDrop > 0.001
                 then map_set t (max 1 (real_of_int (round (survivalDrop * 100)))) ev
                 else ev)))"

definition buildGroupData :: "real list \<Rightarrow> SurvivalData \<Rightarrow> GroupData" where
  "buildGroupData sortedTimes grp =
     (let tpm = buildTimePointMap (timePoints grp)
      in \<lparr> g_subtype = subtype grp,
           timePointMap = tpm,
           g_events = eventsLoop tpm sortedTimes 1 [],
           initialCount = 100 \<rparr>)"

definition lastSurvivalBefore :: "(real \<times> real) list \<Rightarrow> real \<Rightarrow> real" where
  "lastSurvivalBefore tpm t =
     foldl (\<lambda>lastSurvival (t', s). if t' < t then s else lastSurvival) 1 tpm"

text \<open>
  \<^verbatim>\<open>Math.round(group.initialCount * lastSurvival)\<close>. The model rounds the exact
  product. The product of two doubles can fall on the other side of a half: the double
  product of 100 and 0.285 lies below 28.5 and rounds to 28, the exact product is 28.5 and
  rounds to 29. The value of \<^const>\<open>round\<close> below is therefore the code's value only
  where the double product is exact; the general statements about the at-risk count are
  about its two factors, and concrete values are stated only at such inputs.
\<close>

definition groupAtRiskAt :: "GroupData \<Rightarrow> real \<Rightarrow> real" where
  "groupAtRiskAt g t =
     real_of_int (round (initialCount g * lastSurvivalBefore (timePointMap g) t))"

definition groupEventsAt :: "GroupData \<Rightarrow> real \<Rightarrow> real" where
  "groupEventsAt g t = (case map_of (g_events g) t of None \<Rightarrow> 0 | Some e \<Rightarrow> e)"

definition timeStep :: "GroupData list \<Rightarrow> real \<times> real \<Rightarrow> real \<Rightarrow> real \<times> real" where
  "timeStep groupData acc t =
     (let groupAtRisk = map (\<lambda>g. groupAtRiskAt g t) groupData;
          groupEvents = map (\<lambda>g. groupEventsAt g t) groupData;
          totalEvents = sum_list groupEvents;
          totalAtRisk = sum_list groupAtRisk
      in if totalAtRisk > 0 \<and> totalEvents > 0 then
           foldl (\<lambda>(numerator, denominator) i.
                    (let observed = groupEvents ! i;
                         expected = (groupAtRisk ! i / totalAtRisk) * totalEvents;
                         variance =
                           (if totalAtRisk > 1 then
                              (groupAtRisk ! i * (totalAtRisk - groupAtRisk ! i)
                                 * totalEvents * (totalAtRisk - totalEvents))
                              / (totalAtRisk * totalAtRisk * (totalAtRisk - 1))
                            else 0)
                     in (numerator + (observed - expected), denominator + variance)))
                 acc [0 ..< length groupData - 1]
         else acc)"

definition logRankSums :: "SurvivalData list \<Rightarrow> real \<times> real" where
  "logRankSums survivalData =
     (let sortedTimes = sortedTimesOf survivalData;
          groupData = map (buildGroupData sortedTimes) survivalData
      in foldl (timeStep groupData) (0, 0) sortedTimes)"

definition logRankTest :: "SurvivalData list \<Rightarrow> LogRankResult option" where
  "logRankTest survivalData =
     (if length survivalData < 2 then None
      else if length (sortedTimesOf survivalData) = 0 then None
      else
        (let (numerator, denominator) = logRankSums survivalData
         in if denominator \<le> 0 then None
            else
              (let chiSq = (numerator * numerator) / denominator;
                   df = length survivalData - 1
               in Some \<lparr> pValue = chiSquarePValue chiSq df,
                         chiSquare = chiSq,
                         degreesOfFreedom = df \<rparr>)))"

subsection \<open>Special functions of the Cox-PH module\<close>

definition normalCDF :: "real \<Rightarrow> real" where
  "normalCDF x0 =
     (let a1 = 0.254829592;
          a2 = - 0.284496736;
          a3 = 1.421413741;
          a4 = - 1.453152027;
          a5 = 1.061405429;
          p = 0.3275911;
          sign = (if x0 < 0 then - 1 else 1);
          x = \<bar>x0\<bar> / sqrt 2;
          t = 1 / (1 + p * x);
          y = 1 - (((((a5 * t + a4) * t) + a3) * t + a2) * t + a1) * t * exp (- x * x)
      in 0.5 * (1 + sign * y))"

definition gammaLn :: "real \<Rightarrow> real" where
  "gammaLn x =
     (let c = [76.18009172947146, - 86.50532032941677, 24.01409824083091,
               - 1.231739572450155, 0.001208650973866179, - 0.000005395239384953];
          tmp0 = x + 5.5;
          tmp = tmp0 - (x + 0.5) * ln tmp0;
          ser = foldl (\<lambda>ser j. ser + c ! j / (x + real (Suc j))) 1.000000000190015 [0 ..< 6]
      in - tmp + ln (2.5066282746310005 * ser / x))"

text \<open>The series of \<^verbatim>\<open>gammainc\<close> for \<open>x < a + 1\<close>: \<open>n\<close> runs from 1 to 100.\<close>

function gserLoop :: "real \<Rightarrow> real \<Rightarrow> nat \<Rightarrow> real \<Rightarrow> real \<Rightarrow> real" where
  "gserLoop a x n del sm =
     (if n \<le> 100 then
        (let del' = del * (x / (a + real n));
             sm' = sm + del'
         in if \<bar>del'\<bar> < \<bar>sm'\<bar> * (1 / 10 ^ 10) then sm'
            else gserLoop a x (Suc n) del' sm')
      else sm)"
  by pat_completeness auto
termination
  by (relation "measure (\<lambda>(a, x, n, del, sm). 101 - n)") auto

text \<open>The continued fraction of \<^verbatim>\<open>gammainc\<close> for \<open>x \<ge> a + 1\<close>: \<open>i\<close> runs from 1 to 100.\<close>

function gcfLoop :: "real \<Rightarrow> nat \<Rightarrow> real \<Rightarrow> real \<Rightarrow> real \<Rightarrow> real \<Rightarrow> real" where
  "gcfLoop a i b c d h =
     (if i \<le> 100 then
        (let an = - real i * (real i - a);
             b' = b + 2;
             d1 = an * d + b';
             d2 = (if \<bar>d1\<bar> < 1 / 10 ^ 30 then 1 / 10 ^ 30 else d1);
             c1 = b' + an / c;
             c' = (if \<bar>c1\<bar> < 1 / 10 ^ 30 then 1 / 10 ^ 30 else c1);
             d' = 1 / d2;
             del = d' * c';
             h' = h * del
         in if \<bar>del - 1\<bar> < 1 / 10 ^ 10 then h' else gcfLoop a (Suc i) b' c' d' h')
      else h)"
  by pat_completeness auto
termination
  by (relation "measure (\<lambda>(a, i, b, c, d, h). 101 - i)") auto

definition gammainc :: "real \<Rightarrow> real \<Rightarrow> real" where
  "gammainc a x =
     (if x < 0 \<or> a \<le> 0 then 0
      else if x = 0 then 0
      else
        (let gln = gammaLn a
         in if x < a + 1 then
              gserLoop a x 1 (1 / a) (1 / a) * exp (- x + a * ln x - gln)
            else
              (let b = x + 1 - a;
                   d = 1 / b
               in 1 - exp (- x + a * ln x - gln) * gcfLoop a 1 b (10 ^ 30) d d)))"

definition chiSquareCDF :: "real \<Rightarrow> real \<Rightarrow> real" where
  "chiSquareCDF x df =
     (if x \<le> 0 then 0
      else if df \<le> 0 then 0
      else gammainc (df / 2) (x / 2))"

subsection \<open>The hazard-ratio estimator\<close>

record HazardRatioGroup =
  hr_subtype :: string
  hazardRatio :: real
  lowerCI :: real
  upperCI :: real
  hr_pValue :: real
  coefficient :: real
  se :: real

record WaldTest =
  wald_chiSquare :: real
  wald_df :: nat
  wald_pValue :: real

record CoxPHResult =
  referenceGroup :: string
  groups :: "HazardRatioGroup list"
  waldTest :: WaldTest

text \<open>
  \<^verbatim>\<open>subtypeCounts?.[g] || 100\<close>: the mapping is optional, a group may be absent from
  it, and a count of 0 is falsy; each of the three gives 100.
\<close>

definition countOr100 :: "(string \<rightharpoonup> real) option \<Rightarrow> string \<Rightarrow> real" where
  "countOr100 subtypeCounts g =
     (case subtypeCounts of
        None \<Rightarrow> 100
      | Some m \<Rightarrow> (case m g of None \<Rightarrow> 100 | Some n \<Rightarrow> if n = 0 then 100 else n))"

text \<open>
  \<^verbatim>\<open>points.find(p => p.time === t)?.survival || 1\<close>: the first point with that time
  decides; no such point, or a survival of 0, gives 1.
\<close>

definition survivalAt :: "SurvivalTimePoint list \<Rightarrow> real \<Rightarrow> real" where
  "survivalAt points t =
     (case find (\<lambda>p. time p = t) points of
        None \<Rightarrow> 1
      | Some p \<Rightarrow> if survival p = 0 then 1 else survival p)"

definition hazardRatioAt :: "SurvivalTimePoint list \<Rightarrow> SurvivalTimePoint list \<Rightarrow> real \<Rightarrow> real option" where
  "hazardRatioAt refPoints compPoints t =
     (let s1 = survivalAt refPoints t;
          s2 = survivalAt compPoints t
      in if s1 > 0.05 \<and> s1 < 0.99 \<and> s2 > 0.05 \<and> s2 < 0.99 then
           (let hr = ln s2 / ln s1
            in if hr > 0 \<and> hr < 100 then Some hr else None)
         else None)"

definition hazardRatiosOf :: "SurvivalTimePoint list \<Rightarrow> SurvivalTimePoint list \<Rightarrow> real list" where
  "hazardRatiosOf refPoints compPoints =
     (let refTimes = map time refPoints;
          compTimes = map time compPoints;
          commonTimes = filter (\<lambda>t. t \<in> set compTimes \<and> t > 0) refTimes
      in List.map_filter (hazardRatioAt refPoints compPoints) commonTimes)"

text \<open>The body of the loop over the comparison groups; \<open>None\<close> is \<^verbatim>\<open>continue\<close>.\<close>

definition coxGroup ::
  "string \<Rightarrow> SurvivalTimePoint list \<Rightarrow> (string \<rightharpoonup> real) option \<Rightarrow> SurvivalData
     \<Rightarrow> HazardRatioGroup option" where
  "coxGroup refGroup refPoints subtypeCounts grp =
     (let compPoints = timePoints grp;
          n1 = countOr100 subtypeCounts refGroup;
          n2 = countOr100 subtypeCounts (subtype grp);
          hazardRatios = hazardRatiosOf refPoints compPoints
      in if length hazardRatios = 0 then None
         else
           (let logHRs = map ln hazardRatios;
                meanLogHR = foldl (+) 0 logHRs / real (length logHRs);
                variance = foldl (\<lambda>s lhr. s + (lhr - meanLogHR) ^ 2) 0 logHRs
                             / (if length logHRs - 1 = 0 then 1 else real (length logHRs - 1));
                baseSE = sqrt variance;
                sampleSizeAdj = sqrt (1 / n1 + 1 / n2);
                stderr = max baseSE (sampleSizeAdj * 0.5);
                z = 1.96;
                zStat = meanLogHR / stderr
            in Some \<lparr> hr_subtype = subtype grp,
                      hazardRatio = exp meanLogHR,
                      lowerCI = exp (meanLogHR - z * stderr),
                      upperCI = exp (meanLogHR + z * stderr),
                      hr_pValue = 2 * (1 - normalCDF \<bar>zStat\<bar>),
                      coefficient = meanLogHR,
                      se = stderr \<rparr>))"

definition estimateCoxPH ::
  "SurvivalData list \<Rightarrow> (string \<rightharpoonup> real) option \<Rightarrow> CoxPHResult option" where
  "estimateCoxPH survivalData subtypeCounts =
     (if length survivalData < 2 then None
      else
        (let refGroup = subtype (survivalData ! 0);
             refPoints = timePoints (survivalData ! 0);
             gs = List.map_filter (coxGroup refGroup refPoints subtypeCounts) (drop 1 survivalData)
         in if length gs = 0 then None
            else
              (let chiSq = foldl (\<lambda>s g. s + (coefficient g / se g) ^ 2) 0 gs;
                   df = length gs
               in Some \<lparr> referenceGroup = refGroup,
                         groups = gs,
                         waldTest = \<lparr> wald_chiSquare = chiSq,
                                      wald_df = df,
                                      wald_pValue = 1 - chiSquareCDF chiSq (real df) \<rparr> \<rparr>)))"

subsection \<open>Curve clean-up, as the survival chart does it\<close>

text \<open>
  The component sorts a copy of the points by time (a stable sort) and replaces every
  survival by the minimum of itself and the last cleaned survival, starting from 1; the
  other fields of a point are kept.
\<close>

fun monotonic :: "real \<Rightarrow> SurvivalTimePoint list \<Rightarrow> SurvivalTimePoint list" where
  "monotonic lastSurvival [] = []"
| "monotonic lastSurvival (tp # tps) =
     (let s = min lastSurvival (survival tp)
      in tp\<lparr>survival := s\<rparr> # monotonic s tps)"

definition cleanPoints :: "SurvivalTimePoint list \<Rightarrow> SurvivalTimePoint list" where
  "cleanPoints tps = monotonic 1 (sort_key time tps)"

definition cleanCurve :: "SurvivalData \<Rightarrow> SurvivalData" where
  "cleanCurve grp = grp\<lparr>timePoints := cleanPoints (timePoints grp)\<rparr>"

subsection \<open>The claims' own wording of the at-risk reconstruction\<close>




subsection \<open>The polynomial shared by both normal-CDF evaluations\<close>

text \<open>
  \<^const>\<open>normalCDF\<close> and the inline code of \<^const>\<open>chiSquarePValue\<close> evaluate the same
  Horner scheme; they differ in the argument they pass to it.
\<close>

definition hornerAS :: "real \<Rightarrow> real" where
  "hornerAS t =
     (((((1.061405429 * t + - 1.453152027) * t) + 1.421413741) * t + - 0.284496736) * t
        + 0.254829592) * t"

subsection \<open>Example inputs\<close>

definition pt :: "real \<Rightarrow> real \<Rightarrow> SurvivalTimePoint" where
  "pt t s = \<lparr> time = t, survival = s, censored = None, events = None, atRisk = None \<rparr>"

definition curveHalf :: SurvivalData where
  "curveHalf = \<lparr> subtype = ''A'', timePoints = [pt 1 0.5] \<rparr>"

definition curveHalfCounted :: SurvivalData where
  "curveHalfCounted =
     \<lparr> subtype = ''A'',
       timePoints = [\<lparr> time = 1, survival = 0.5, censored = Some 3, events = Some 2,
                      atRisk = Some 40 \<rparr>] \<rparr>"

definition curveEmpty :: SurvivalData where
  "curveEmpty = \<lparr> subtype = ''E'', timePoints = [] \<rparr>"

definition curveFlat :: SurvivalData where
  "curveFlat = \<lparr> subtype = ''F'', timePoints = [pt 1 1, pt 2 1] \<rparr>"

definition curveLate :: SurvivalData where
  "curveLate = \<lparr> subtype = ''L'', timePoints = [pt 5 0.5] \<rparr>"

definition declineA :: SurvivalData where
  "declineA = \<lparr> subtype = ''A'', timePoints = [pt 1 0.9, pt 2 0.8] \<rparr>"

definition bumpA :: SurvivalData where
  "bumpA = \<lparr> subtype = ''A'', timePoints = [pt 1 0.04, pt 2 0.06, pt 3 0.04] \<rparr>"

definition bumpB :: SurvivalData where
  "bumpB = \<lparr> subtype = ''B'', timePoints = [pt 1 0.04, pt 2 0.06] \<rparr>"

definition dupCurve :: SurvivalData where
  "dupCurve = \<lparr> subtype = ''A'', timePoints = [pt 1 0.995, pt 1 0.5] \<rparr>"

definition dupCurveLow :: SurvivalData where
  "dupCurveLow = \<lparr> subtype = ''A'', timePoints = [pt 1 0.995, pt 1 0.3] \<rparr>"

definition curveHalfB :: SurvivalData where
  "curveHalfB = \<lparr> subtype = ''B'', timePoints = [pt 1 0.5] \<rparr>"

section \<open>Auxiliary facts\<close>

lemmas logRank_defs = logRankTest_def logRankSums_def sortedTimesOf_def buildGroupData_def
  buildTimePointMap_def timeStep_def groupAtRiskAt_def groupEventsAt_def lastSurvivalBefore_def
  Let_def

lemmas cox_defs = estimateCoxPH_def coxGroup_def hazardRatiosOf_def hazardRatioAt_def
  survivalAt_def Let_def

subsection \<open>Lists and maps\<close>

lemma in_set_map_filter: "y \<in> set (List.map_filter f xs) \<longleftrightarrow> (\<exists>x \<in> set xs. f x = Some y)"
  by (induction xs) (auto split: option.splits)

lemma map_filter_via_map:
  "List.map_filter f xs = map the (filter (\<lambda>y. y \<noteq> None) (map f xs))"
  by (induction xs) auto

lemma map_filter_cong_map:
  "map f xs = map g ys \<Longrightarrow> List.map_filter f xs = List.map_filter g ys"
  by (simp only: map_filter_via_map)

lemma map_eq_nthD: "map f xs = map f ys \<Longrightarrow> i < length xs \<Longrightarrow> f (xs ! i) = f (ys ! i)"
  by (metis length_map nth_map)

lemma find_Some_mem: "find P xs = Some x \<Longrightarrow> x \<in> set xs \<and> P x"
  by (induction xs) (auto split: if_splits)

lemma foldl_add_all_zero: "(\<forall>x \<in> set xs. x = (0::real)) \<Longrightarrow> foldl (+) a xs = a"
  by (induction xs arbitrary: a) simp_all

lemma foldl_sq_nonneg: "0 \<le> a \<Longrightarrow> 0 \<le> foldl (\<lambda>s (x::real). s + (x - m) ^ 2) a xs"
  by (induction xs arbitrary: a) simp_all


subsection \<open>The log-rank accumulation on two groups that agree\<close>

lemma timeStep_pair_fst:
  assumes "groupAtRiskAt g1 t = groupAtRiskAt g2 t" "groupEventsAt g1 t = groupEventsAt g2 t"
  shows "fst (timeStep [g1, g2] acc t) = fst acc"
  using assms by (cases acc) (simp add: timeStep_def Let_def)

lemma foldl_timeStep_pair_fst:
  assumes "\<And>t. groupAtRiskAt g1 t = groupAtRiskAt g2 t"
    and "\<And>t. groupEventsAt g1 t = groupEventsAt g2 t"
  shows "fst (foldl (timeStep [g1, g2]) acc ts) = fst acc"
  using assms by (induction ts arbitrary: acc) (simp_all add: timeStep_pair_fst)

lemma logRankSums_identical:
  assumes "timePoints c1 = timePoints c2"
  shows "fst (logRankSums [c1, c2]) = 0"
proof -
  let ?ts = "sortedTimesOf [c1, c2]"
  have "\<And>t. groupAtRiskAt (buildGroupData ?ts c1) t = groupAtRiskAt (buildGroupData ?ts c2) t"
    using assms by (simp add: groupAtRiskAt_def buildGroupData_def Let_def)
  moreover
  have "\<And>t. groupEventsAt (buildGroupData ?ts c1) t = groupEventsAt (buildGroupData ?ts c2) t"
    using assms by (simp add: groupEventsAt_def buildGroupData_def Let_def)
  ultimately show ?thesis
    by (simp add: logRankSums_def Let_def foldl_timeStep_pair_fst)
qed

lemma chiSquarePValue_zero: "chiSquarePValue 0 (Suc 0) = 999999999 / 1000000000"
  by (simp add: chiSquarePValue_def Let_def)

lemma logRankTest_curveHalf:
  "logRankTest [curveHalf, curveHalf]
   = Some \<lparr> pValue = 999999999 / 1000000000, chiSquare = 0, degreesOfFreedom = 1 \<rparr>"
  by (simp add: logRank_defs curveHalf_def pt_def chiSquarePValue_def)

subsection \<open>The time-point map of a curve with distinct times\<close>




subsection \<open>The time-point map of a curve sorted by time\<close>

lemma map_fst_map_set:
  "map fst (map_set k v m) = (if k \<in> fst ` set m then map fst m else map fst m @ [k])"
  by (induction m) force+


lemma buildTimePointMap_snoc:
  "buildTimePointMap (tps @ [p]) = map_set (time p) (survival p) (buildTimePointMap tps)"
  by (simp add: buildTimePointMap_def)

lemma keys_map_set: "fst ` set (map_set k v m) = insert k (fst ` set m)"
  by (induction m) force+

lemma keys_buildTimePointMap: "fst ` set (buildTimePointMap tps) = time ` set tps"
  by (induction tps rule: rev_induct) (auto simp: buildTimePointMap_snoc keys_map_set buildTimePointMap_def)



subsection \<open>Clean-up of a curve that is already clean\<close>

lemma monotonic_id:
  "sorted_wrt (\<lambda>a b. b \<le> a) (l # map survival tps) \<Longrightarrow> monotonic l tps = tps"
  by (induction tps arbitrary: l) (auto simp: Let_def min_def)

lemma cleanCurve_id:
  assumes "sorted (map time (timePoints c))"
    and "sorted_wrt (\<lambda>a b. b \<le> a) (1 # map survival (timePoints c))"
  shows "cleanCurve c = c"
  by (simp add: cleanCurve_def cleanPoints_def sort_key_id_if_sorted[OF assms(1)]
        monotonic_id[OF assms(2)])

lemma clean_bumpA:
  "cleanCurve bumpA = \<lparr> subtype = ''A'', timePoints = [pt 1 0.04, pt 2 0.04, pt 3 0.04] \<rparr>"
  by (simp add: cleanCurve_def cleanPoints_def bumpA_def pt_def Let_def)

lemma clean_bumpB:
  "cleanCurve bumpB = \<lparr> subtype = ''B'', timePoints = [pt 1 0.04, pt 2 0.04] \<rparr>"
  by (simp add: cleanCurve_def cleanPoints_def bumpB_def pt_def Let_def)

lemma logRank_bump_raw:
  "map_option chiSquare (logRankTest [bumpA, bumpB]) = Some (2189 / 5219)"
  by (simp add: logRank_defs bumpA_def bumpB_def pt_def)

lemma logRank_bump_clean:
  "map_option chiSquare (logRankTest (map cleanCurve [bumpA, bumpB])) = Some 0"
  by (simp add: clean_bumpA clean_bumpB) (simp add: logRank_defs pt_def)

lemma cox_bump_raw: "estimateCoxPH [bumpA, bumpB] None \<noteq> None"
  by (simp add: cox_defs bumpA_def bumpB_def pt_def)

lemma cox_bump_clean: "estimateCoxPH (map cleanCurve [bumpA, bumpB]) None = None"
  by (simp add: clean_bumpA clean_bumpB) (simp add: cox_defs pt_def)

subsection \<open>The hazard-ratio estimator, group by group\<close>

lemma coxGroup_SomeD:
  assumes "coxGroup rg rp counts grp = Some g"
  shows "hazardRatiosOf rp (timePoints grp) \<noteq> []"
    and "hr_subtype g = subtype grp"
    and "hazardRatio g = exp (coefficient g)"
    and "lowerCI g = exp (coefficient g - 1.96 * se g)"
    and "upperCI g = exp (coefficient g + 1.96 * se g)"
    and "\<exists>b\<ge>0. se g = max b (sqrt (1 / countOr100 counts rg
                                     + 1 / countOr100 counts (subtype grp)) * 0.5)"
proof -
  let ?hrs = "hazardRatiosOf rp (timePoints grp)"
  from assms show ne: "?hrs \<noteq> []"
    by (auto simp: coxGroup_def Let_def split: if_splits)
  from assms ne show "hr_subtype g = subtype grp"
    by (auto simp: coxGroup_def Let_def split: if_splits)
  from assms ne show "hazardRatio g = exp (coefficient g)"
    by (auto simp: coxGroup_def Let_def split: if_splits)
  from assms ne show "lowerCI g = exp (coefficient g - 1.96 * se g)"
    by (auto simp: coxGroup_def Let_def split: if_splits)
  from assms ne show "upperCI g = exp (coefficient g + 1.96 * se g)"
    by (auto simp: coxGroup_def Let_def split: if_splits)
  define m where "m = foldl (+) 0 (map ln ?hrs) / real (length ?hrs)"
  define v where "v = foldl (\<lambda>s lhr. s + (lhr - m) ^ 2) 0 (map ln ?hrs)
                        / (if length (map ln ?hrs) - 1 = 0 then 1
                           else real (length (map ln ?hrs) - 1))"
  have "0 \<le> v" unfolding v_def
    by (intro divide_nonneg_nonneg foldl_sq_nonneg) auto
  moreover from assms ne
  have "se g = max (sqrt v) (sqrt (1 / countOr100 counts rg
                                   + 1 / countOr100 counts (subtype grp)) * 0.5)"
    by (auto simp: coxGroup_def Let_def v_def m_def split: if_splits)
  ultimately
  show "\<exists>b\<ge>0. se g = max b (sqrt (1 / countOr100 counts rg
                                     + 1 / countOr100 counts (subtype grp)) * 0.5)"
    by (intro exI[of _ "sqrt v"]) simp
qed

lemma coxGroup_single:
  assumes "coxGroup rg rp counts grp = Some g"
    and "length (hazardRatiosOf rp (timePoints grp)) = 1"
  shows "se g = max 0 (sqrt (1 / countOr100 counts rg
                             + 1 / countOr100 counts (subtype grp)) * 0.5)"
proof -
  from assms(2) obtain h where h: "hazardRatiosOf rp (timePoints grp) = [h]"
    by (cases "hazardRatiosOf rp (timePoints grp)") auto
  from assms(1) show ?thesis
    by (auto simp: coxGroup_def Let_def h split: if_splits)
qed

lemma estimateCoxPH_SomeD:
  assumes "estimateCoxPH sd counts = Some r"
  shows "2 \<le> length sd"
    and "referenceGroup r = subtype (sd ! 0)"
    and "groups r = List.map_filter (coxGroup (subtype (sd ! 0)) (timePoints (sd ! 0)) counts)
                      (drop 1 sd)"
    and "groups r \<noteq> []"
  using assms by (auto simp: estimateCoxPH_def Let_def split: if_splits)

lemma sample_floor_pos:
  assumes "0 < (n1::real)" "0 < n2"
  shows "0 < sqrt (1 / n1 + 1 / n2) * 0.5"
  using assms by (simp add: add_pos_pos)

lemma hazardRatioAt_self:
  assumes "hazardRatioAt pts pts t = Some hr"
  shows "hr = 1"
proof -
  let ?s = "survivalAt pts t"
  from assms have rng: "0.05 < ?s" "?s < 0.99" and hr: "hr = ln ?s / ln ?s"
    by (auto simp: hazardRatioAt_def Let_def split: if_splits)
  from rng have "ln ?s \<noteq> 0" by simp
  with hr show ?thesis by simp
qed

lemma hazardRatioAt_self_Some:
  assumes "0.05 < survivalAt pts t" "survivalAt pts t < 0.99"
  shows "hazardRatioAt pts pts t = Some 1"
proof -
  from assms have "ln (survivalAt pts t) \<noteq> 0" by simp
  with assms show ?thesis by (simp add: hazardRatioAt_def Let_def)
qed

lemma hazardRatiosOf_self_all_one: "\<forall>h \<in> set (hazardRatiosOf pts pts). h = 1"
  by (auto simp: hazardRatiosOf_def Let_def in_set_map_filter dest: hazardRatioAt_self)

lemma hazardRatiosOf_self_nonempty:
  assumes "find (\<lambda>q. time q = time p) pts = Some p" "0 < time p"
    and "0.05 < survival p" "survival p < 0.99"
  shows "hazardRatiosOf pts pts \<noteq> []"
proof -
  from assms(1) have mem: "p \<in> set pts" by (auto dest: find_Some_mem)
  from assms(1,3) have s: "survivalAt pts (time p) = survival p"
    by (simp add: survivalAt_def)
  have "hazardRatioAt pts pts (time p) = Some 1"
    using assms(3,4) by (intro hazardRatioAt_self_Some) (simp_all add: s)
  moreover
  have "time p \<in> set (filter (\<lambda>t. t \<in> set (map time pts) \<and> 0 < t) (map time pts))"
    using mem assms(2) by auto
  ultimately have "1 \<in> set (hazardRatiosOf pts pts)"
    unfolding hazardRatiosOf_def Let_def in_set_map_filter by blast
  then show ?thesis by auto
qed

lemma coxGroup_self:
  assumes "hazardRatiosOf pts (timePoints c) \<noteq> []"
    and "\<forall>h \<in> set (hazardRatiosOf pts (timePoints c)). h = 1"
  shows "\<exists>g. coxGroup rg pts counts c = Some g \<and> hazardRatio g = 1 \<and> coefficient g = 0"
proof -
  have "\<forall>x \<in> set (map ln (hazardRatiosOf pts (timePoints c))). x = 0"
    using assms(2) by auto
  then have "foldl (+) 0 (map ln (hazardRatiosOf pts (timePoints c))) = 0"
    by (rule foldl_add_all_zero)
  with assms(1) show ?thesis
    by (simp add: coxGroup_def Let_def)
qed

lemma hazardRatiosOf_curveHalf:
  "hazardRatiosOf (timePoints curveHalf) (timePoints curveHalf) = [1]"
  by (simp add: hazardRatiosOf_def hazardRatioAt_def survivalAt_def curveHalf_def pt_def Let_def)

lemma cox_curveHalf:
  "\<exists>r g. estimateCoxPH [curveHalf, curveHalf] None = Some r \<and> groups r = [g]
         \<and> referenceGroup r = subtype curveHalf
         \<and> coxGroup (subtype curveHalf) (timePoints curveHalf) None curveHalf = Some g"
  by (simp add: estimateCoxPH_def coxGroup_def hazardRatiosOf_curveHalf Let_def)

subsection \<open>Functions of the points that read only time and survival\<close>

lemma points_cong_ConsD:
  assumes "map time (x # xs) = map time ys" "map survival (x # xs) = map survival ys"
  obtains y ys' where "ys = y # ys'" "time x = time y" "survival x = survival y"
    "map time xs = map time ys'" "map survival xs = map survival ys'"
proof (cases ys)
  case Nil
  with assms show ?thesis by simp
next
  case (Cons y ys')
  with assms that show ?thesis by simp
qed

lemma foldl_points_cong:
  "map time xs = map time ys \<Longrightarrow> map survival xs = map survival ys \<Longrightarrow>
   foldl (\<lambda>m tp. map_set (time tp) (survival tp) m) m xs
   = foldl (\<lambda>m tp. map_set (time tp) (survival tp) m) m ys"
proof (induction xs arbitrary: ys m)
  case Nil
  then show ?case by simp
next
  case (Cons x xs)
  from Cons.prems obtain y ys' where ys: "ys = y # ys'" "time x = time y" "survival x = survival y"
    "map time xs = map time ys'" "map survival xs = map survival ys'"
    by (rule points_cong_ConsD)
  from Cons.IH[OF ys(4,5)] show ?case by (simp add: ys(1,2,3))
qed

lemma buildTimePointMap_cong:
  "map time xs = map time ys \<Longrightarrow> map survival xs = map survival ys \<Longrightarrow>
   buildTimePointMap xs = buildTimePointMap ys"
  unfolding buildTimePointMap_def by (rule foldl_points_cong)

lemma survivalAt_cong:
  "map time xs = map time ys \<Longrightarrow> map survival xs = map survival ys \<Longrightarrow>
   survivalAt xs t = survivalAt ys t"
proof (induction xs arbitrary: ys)
  case Nil
  then show ?case by simp
next
  case (Cons x xs)
  from Cons.prems obtain y ys' where ys: "ys = y # ys'" "time x = time y" "survival x = survival y"
    "map time xs = map time ys'" "map survival xs = map survival ys'"
    by (rule points_cong_ConsD)
  from Cons.IH[OF ys(4,5)] show ?case
    by (simp add: survivalAt_def ys(1,2,3))
qed

lemma hazardRatiosOf_cong:
  assumes "map time r1 = map time r2" "map survival r1 = map survival r2"
    and "map time c1 = map time c2" "map survival c1 = map survival c2"
  shows "hazardRatiosOf r1 c1 = hazardRatiosOf r2 c2"
proof -
  have "hazardRatioAt r1 c1 = hazardRatioAt r2 c2"
    by (rule ext) (simp add: hazardRatioAt_def survivalAt_cong[OF assms(1,2)] survivalAt_cong[OF assms(3,4)])
  then show ?thesis
    by (simp add: hazardRatiosOf_def assms(1,3))
qed

lemma coxGroup_cong:
  assumes "map time r1 = map time r2" "map survival r1 = map survival r2"
    and "subtype g1 = subtype g2"
    and "map time (timePoints g1) = map time (timePoints g2)"
    and "map survival (timePoints g1) = map survival (timePoints g2)"
  shows "coxGroup rg r1 counts g1 = coxGroup rg r2 counts g2"
  unfolding coxGroup_def Let_def hazardRatiosOf_cong[OF assms(1,2,4,5)] assms(3) ..

lemma buildGroupData_cong:
  assumes "subtype g1 = subtype g2"
    and "map time (timePoints g1) = map time (timePoints g2)"
    and "map survival (timePoints g1) = map survival (timePoints g2)"
  shows "buildGroupData ts g1 = buildGroupData ts g2"
  by (simp add: buildGroupData_def buildTimePointMap_cong[OF assms(2,3)] assms(1))

subsection \<open>The two evaluations of the normal CDF\<close>

lemma tail_algebra: "2 * (1 - 0.5 * (1 + 1 * (1 - H * E))) = H * (E::real)"
  by (simp add: field_simps)

lemma chiSquarePValue_df1:
  assumes "0 \<le> c"
  shows "chiSquarePValue c 1 = hornerAS (1 / (1 + 0.3275911 * sqrt c)) * exp (- c / 2)"
proof -
  have a: "\<bar>sqrt c\<bar> = sqrt c" "(sqrt c < 0) = False" using assms by simp_all
  have b: "- sqrt c * sqrt c = - c" using assms by simp
  show ?thesis
    unfolding chiSquarePValue_def Let_def hornerAS_def a b
    by (simp only: if_False if_True simp_thms tail_algebra)
qed

lemma normalCDF_upper_tail:
  assumes "0 \<le> z"
  shows "2 * (1 - normalCDF z) = hornerAS (1 / (1 + 0.3275911 * (z / sqrt 2))) * exp (- (z * z) / 2)"
proof -
  have a: "\<bar>z\<bar> = z" "(z < 0) = False" using assms by simp_all
  have b: "z / sqrt 2 * (z / sqrt 2) = z * z / 2" by (simp add: field_simps)
  have c: "- (z / sqrt 2) * (z / sqrt 2) = - (z * z) / 2" using b by simp
  show ?thesis
    unfolding normalCDF_def Let_def hornerAS_def a c
    by (simp only: if_False if_True simp_thms tail_algebra)
qed

lemma hornerAS_expand:
  "hornerAS t = 0.254829592 * t - 0.284496736 * t ^ 2 + 1.421413741 * t ^ 3 - 1.453152027 * t ^ 4
                + 1.061405429 * t ^ 5"
  by (simp add: hornerAS_def algebra_simps eval_nat_numeral)

lemma hornerAS_lower:
  assumes "0.811 \<le> t" "t \<le> 0.813"
  shows "1 / 2 < hornerAS t"
proof -
  have t0: "0 \<le> t" using assms by simp
  have p2: "t ^ 2 \<le> 0.813 ^ 2" by (intro power_mono assms t0)
  have p4: "t ^ 4 \<le> 0.813 ^ 4" by (intro power_mono assms t0)
  have p3: "0.811 ^ 3 \<le> t ^ 3" using assms(1) by (intro power_mono) simp_all
  have p5: "0.811 ^ 5 \<le> t ^ 5" using assms(1) by (intro power_mono) simp_all
  from p2 p3 p4 p5 assms show ?thesis
    unfolding hornerAS_expand by (simp add: eval_nat_numeral) 
qed

lemma sqrt2_bounds: "1.41 < sqrt 2" "sqrt 2 < 1.42"
proof -
  show "1.41 < sqrt 2" by (rule real_less_rsqrt) (simp add: power2_eq_square)
  show "sqrt 2 < 1.42" by (rule real_less_lsqrt) (simp_all add: power2_eq_square)
qed

lemma t1_bounds: "0.811 \<le> 1 / (1 + 0.3275911 * (1 / sqrt 2))" "1 / (1 + 0.3275911 * (1 / sqrt 2)) \<le> 0.813"
proof -
  define q where "q = 1 / sqrt 2"
  have q1: "q < 1 / 1.41" unfolding q_def using sqrt2_bounds(1) by (intro divide_strict_left_mono) simp_all
  have q2: "1 / 1.42 < q" unfolding q_def using sqrt2_bounds(2) by (intro divide_strict_left_mono) simp_all
  have pos: "0 < 1 + 0.3275911 * q" using q2 by simp
  have "0.811 * (1 + 0.3275911 * q) \<le> 1" using q1 by simp
  then show "0.811 \<le> 1 / (1 + 0.3275911 * (1 / sqrt 2))"
    unfolding q_def[symmetric] using pos by (simp add: pos_le_divide_eq)
  have "1 \<le> 0.813 * (1 + 0.3275911 * q)" using q2 by simp
  then show "1 / (1 + 0.3275911 * (1 / sqrt 2)) \<le> 0.813"
    unfolding q_def[symmetric] using pos by (simp add: pos_divide_le_eq)
qed

lemma hornerAS_t2: "hornerAS (1 / (1 + 0.3275911)) < 1 / 2"
  by (simp add: hornerAS_def)

subsection \<open>What the engines read of a curve\<close>

lemma map_of_map_set: "map_of (map_set k v m) = (map_of m)(k \<mapsto> v)"
  by (induction m) (auto simp: fun_eq_iff)

lemma map_of_buildTimePointMap:
  "map_of (buildTimePointMap tps) t = map_option survival (find (\<lambda>p. time p = t) (rev tps))"
  by (induction tps rule: rev_induct)
     (simp_all add: buildTimePointMap_snoc map_of_map_set, simp add: buildTimePointMap_def)

lemma keys_order_buildTimePointMap:
  "map fst (buildTimePointMap tps) = rev (remdups (rev (map time tps)))"
proof (induction tps rule: rev_induct)
  case Nil
  show ?case by (simp add: buildTimePointMap_def)
next
  case (snoc p tps)
  have k: "time p \<in> fst ` set (buildTimePointMap tps) \<longleftrightarrow> time p \<in> time ` set tps"
    by (simp add: keys_buildTimePointMap)
  show ?case
    by (simp add: buildTimePointMap_snoc map_fst_map_set k snoc.IH)
qed

lemma sortedTimesOf_via_maps:
  "sortedTimesOf a
   = sorted_list_of_set (set (concat (map (map fst) (map (\<lambda>g. buildTimePointMap (timePoints g)) a))))"
proof -
  have e: "set (concat (map (\<lambda>g. map time (timePoints g)) a))
         = set (concat (map (map fst) (map (\<lambda>g. buildTimePointMap (timePoints g)) a)))"
    by (simp add: keys_buildTimePointMap)
  have "sortedTimesOf a = sorted_list_of_set (set (concat (map (\<lambda>g. map time (timePoints g)) a)))"
    by (simp only: sortedTimesOf_def sorted_list_of_set_sort_remdups)
  also have "\<dots> = sorted_list_of_set
                     (set (concat (map (map fst) (map (\<lambda>g. buildTimePointMap (timePoints g)) a))))"
    by (simp only: e)
  finally show ?thesis .
qed

lemma groupAtRisk_via_maps:
  "map (\<lambda>g. groupAtRiskAt g t) (map (buildGroupData ts) a)
   = map (\<lambda>m. real_of_int (round (100 * lastSurvivalBefore m t)))
         (map (\<lambda>g. buildTimePointMap (timePoints g)) a)"
  by (simp add: groupAtRiskAt_def buildGroupData_def Let_def)

lemma groupEvents_via_maps:
  "map (\<lambda>g. groupEventsAt g t) (map (buildGroupData ts) a)
   = map (\<lambda>m. case map_of (eventsLoop m ts 1 []) t of None \<Rightarrow> 0 | Some e \<Rightarrow> e)
         (map (\<lambda>g. buildTimePointMap (timePoints g)) a)"
  by (simp add: groupEventsAt_def buildGroupData_def Let_def)

lemma logRankTest_via_maps:
  assumes "map (\<lambda>g. buildTimePointMap (timePoints g)) a = map (\<lambda>g. buildTimePointMap (timePoints g)) a'"
  shows "logRankTest a = logRankTest a'"
proof -
  have len: "length a' = length a"
    using assms by (rule map_eq_imp_length_eq[symmetric])
  have times: "sortedTimesOf a = sortedTimesOf a'"
    unfolding sortedTimesOf_via_maps assms ..
  have ar: "map (\<lambda>g. groupAtRiskAt g t) (map (buildGroupData ts) a)
          = map (\<lambda>g. groupAtRiskAt g t) (map (buildGroupData ts) a')" for t ts
    unfolding groupAtRisk_via_maps assms ..
  have ev: "map (\<lambda>g. groupEventsAt g t) (map (buildGroupData ts) a)
          = map (\<lambda>g. groupEventsAt g t) (map (buildGroupData ts) a')" for t ts
    unfolding groupEvents_via_maps assms ..
  have step: "timeStep (map (buildGroupData ts) a) = timeStep (map (buildGroupData ts) a')" for ts
    by (intro ext) (simp only: timeStep_def ar ev length_map len)
  have "logRankSums a = logRankSums a'"
    unfolding logRankSums_def Let_def times step ..
  then show ?thesis
    unfolding logRankTest_def times len by simp
qed

lemma hazardRatiosOf_via_readings:
  assumes "map time r1 = map time r2" "survivalAt r1 = survivalAt r2"
    and "map time c1 = map time c2" "survivalAt c1 = survivalAt c2"
  shows "hazardRatiosOf r1 c1 = hazardRatiosOf r2 c2"
proof -
  have "hazardRatioAt r1 c1 = hazardRatioAt r2 c2"
    by (rule ext) (simp add: hazardRatioAt_def assms(2,4))
  then show ?thesis
    by (simp add: hazardRatiosOf_def assms(1,3))
qed

lemma coxGroup_via_readings:
  assumes "map time r1 = map time r2" "survivalAt r1 = survivalAt r2"
    and "subtype g1 = subtype g2"
    and "map time (timePoints g1) = map time (timePoints g2)"
    and "survivalAt (timePoints g1) = survivalAt (timePoints g2)"
  shows "coxGroup rg r1 counts g1 = coxGroup rg r2 counts g2"
  unfolding coxGroup_def Let_def hazardRatiosOf_via_readings[OF assms(1,2,4,5)] assms(3) ..

lemma estimateCoxPH_via_readings:
  assumes sub: "map subtype b = map subtype b'"
    and tim: "map (\<lambda>g. map time (timePoints g)) b = map (\<lambda>g. map time (timePoints g)) b'"
    and sur: "map (\<lambda>g. survivalAt (timePoints g)) b = map (\<lambda>g. survivalAt (timePoints g)) b'"
  shows "estimateCoxPH b counts = estimateCoxPH b' counts"
proof -
  have len: "length b' = length b" using sub by (rule map_eq_imp_length_eq[symmetric])
  have n1: "subtype (b ! i) = subtype (b' ! i)" if "i < length b" for i
    using map_eq_nthD[OF sub that] .
  have n2: "map time (timePoints (b ! i)) = map time (timePoints (b' ! i))" if "i < length b" for i
    using map_eq_nthD[OF tim that] .
  have n3: "survivalAt (timePoints (b ! i)) = survivalAt (timePoints (b' ! i))" if "i < length b" for i
    using map_eq_nthD[OF sur that] .
  show ?thesis
  proof (cases "length b < 2")
    case True
    then show ?thesis by (simp add: estimateCoxPH_def len)
  next
    case False
    then have z: "0 < length b" by (cases b) simp_all
    have "map (coxGroup (subtype (b ! 0)) (timePoints (b ! 0)) counts) (drop 1 b)
        = map (coxGroup (subtype (b' ! 0)) (timePoints (b' ! 0)) counts) (drop 1 b')"
    proof (rule nth_equalityI)
      show "length (map (coxGroup (subtype (b ! 0)) (timePoints (b ! 0)) counts) (drop 1 b))
          = length (map (coxGroup (subtype (b' ! 0)) (timePoints (b' ! 0)) counts) (drop 1 b'))"
        by (simp add: len)
      fix i assume "i < length (map (coxGroup (subtype (b ! 0)) (timePoints (b ! 0)) counts) (drop 1 b))"
      then have i: "Suc i < length b" by simp
      have "coxGroup (subtype (b ! 0)) (timePoints (b ! 0)) counts (b ! Suc i)
          = coxGroup (subtype (b ! 0)) (timePoints (b' ! 0)) counts (b' ! Suc i)"
        by (rule coxGroup_via_readings[OF n2[OF z] n3[OF z] n1[OF i] n2[OF i] n3[OF i]])
      with i show "map (coxGroup (subtype (b ! 0)) (timePoints (b ! 0)) counts) (drop 1 b) ! i
          = map (coxGroup (subtype (b' ! 0)) (timePoints (b' ! 0)) counts) (drop 1 b') ! i"
        by (simp add: len n1[OF z])
    qed
    from map_filter_cong_map[OF this] show ?thesis
      by (simp add: estimateCoxPH_def len n1[OF z])
  qed
qed

section \<open>The claims\<close>

text \<open>
  C6. The log-rank test on two curves with the same point sequence, when it returns a
  result, returns a chi-square statistic of exactly 0 (the observed-minus-expected sum
  vanishes at every grid time) and a p-value within \<open>10\<^sup>-\<^sup>9\<close> of 1. The function has no
  counts argument, so the counts are the same for both groups in every call.
\<close>

theorem logRank_identical_curves:
  assumes "timePoints c1 = timePoints c2" and "logRankTest [c1, c2] = Some r"
  shows "chiSquare r = 0 \<and> \<bar>pValue r - 1\<bar> \<le> 1 / 10 ^ 9"
proof -
  obtain n d where nd: "logRankSums [c1, c2] = (n, d)"
    by (cases "logRankSums [c1, c2]")
  have n0: "n = 0"
    using logRankSums_identical[OF assms(1)] nd by simp
  from assms(2) nd n0
  have "r = \<lparr> pValue = chiSquarePValue 0 (Suc 0), chiSquare = 0, degreesOfFreedom = Suc 0 \<rparr>"
    by (auto simp: logRankTest_def Let_def split: if_splits)
  then show ?thesis
    by (simp add: chiSquarePValue_zero)
qed

theorem logRank_identical_curves_witness:
  "timePoints curveHalf = timePoints curveHalf
   \<and> logRankTest [curveHalf, curveHalf]
       = Some \<lparr> pValue = 999999999 / 1000000000, chiSquare = 0, degreesOfFreedom = 1 \<rparr>
   \<and> chiSquare \<lparr> pValue = 999999999 / 1000000000, chiSquare = 0, degreesOfFreedom = 1 \<rparr> = 0
   \<and> \<bar>pValue \<lparr> pValue = 999999999 / 1000000000, chiSquare = 0, degreesOfFreedom = 1 \<rparr> - 1\<bar>
       \<le> 1 / 10 ^ 9"
  using logRank_identical_curves[OF refl logRankTest_curveHalf] logRankTest_curveHalf
  by simp

text \<open>
  C5. Both engines report insufficient input by returning no result; the model functions
  are total, so there is no other way out of them. \<^const>\<open>logRankTest\<close> returns no result
  for fewer than two groups, for an empty time grid, and for a variance sum that is not
  positive; \<^const>\<open>estimateCoxPH\<close> returns no result for fewer than two groups and when
  every comparison group has no valid hazard-ratio sample.
\<close>

theorem insufficient_input_returns_None:
  "(length a < 2 \<longrightarrow> logRankTest a = None)
 \<and> (sortedTimesOf b = [] \<longrightarrow> logRankTest b = None)
 \<and> (snd (logRankSums c) \<le> 0 \<longrightarrow> logRankTest c = None)
 \<and> (length d < 2 \<longrightarrow> estimateCoxPH d counts = None)
 \<and> ((\<forall>grp \<in> set (drop 1 e). hazardRatiosOf (timePoints (e ! 0)) (timePoints grp) = [])
      \<longrightarrow> estimateCoxPH e counts' = None)"
proof (intro conjI impI)
  show "logRankTest a = None" if "length a < 2"
    using that by (simp add: logRankTest_def)
  show "logRankTest b = None" if "sortedTimesOf b = []"
    using that by (simp add: logRankTest_def)
  show "logRankTest c = None" if "snd (logRankSums c) \<le> 0"
    using that by (cases "logRankSums c") (simp add: logRankTest_def)
  show "estimateCoxPH d counts = None" if "length d < 2"
    using that by (simp add: estimateCoxPH_def)
  show "estimateCoxPH e counts' = None"
    if "\<forall>grp \<in> set (drop 1 e). hazardRatiosOf (timePoints (e ! 0)) (timePoints grp) = []"
  proof -
    have "\<forall>grp \<in> set (drop 1 e).
            coxGroup (subtype (e ! 0)) (timePoints (e ! 0)) counts' grp = None"
      using that by (simp add: coxGroup_def)
    then have "List.map_filter (coxGroup (subtype (e ! 0)) (timePoints (e ! 0)) counts')
                 (drop 1 e) = []"
      by (simp add: map_filter_via_map filter_empty_conv)
    then show ?thesis
      by (simp add: estimateCoxPH_def Let_def)
  qed
qed

theorem insufficient_input_returns_None_witness:
  "length [curveHalf] < 2 \<and> logRankTest [curveHalf] = None
 \<and> sortedTimesOf [curveEmpty, curveEmpty] = [] \<and> logRankTest [curveEmpty, curveEmpty] = None
 \<and> snd (logRankSums [curveFlat, curveFlat]) \<le> 0 \<and> logRankTest [curveFlat, curveFlat] = None
 \<and> estimateCoxPH [curveHalf] None = None
 \<and> hazardRatiosOf (timePoints curveHalf) (timePoints curveLate) = []
 \<and> estimateCoxPH [curveHalf, curveLate] None = None"
proof -
  have a: "length [curveHalf] < 2" by simp
  have b: "sortedTimesOf [curveEmpty, curveEmpty] = []"
    by (simp add: sortedTimesOf_def curveEmpty_def)
  have c: "snd (logRankSums [curveFlat, curveFlat]) \<le> 0"
    by (simp add: logRank_defs curveFlat_def pt_def)
  have e: "hazardRatiosOf (timePoints curveHalf) (timePoints curveLate) = []"
    by (simp add: hazardRatiosOf_def curveHalf_def curveLate_def pt_def)
  have e': "\<forall>grp \<in> set (drop 1 [curveHalf, curveLate]).
              hazardRatiosOf (timePoints ([curveHalf, curveLate] ! 0)) (timePoints grp) = []"
    using e by simp
  from insufficient_input_returns_None
         [of "[curveHalf]" "[curveEmpty, curveEmpty]" "[curveFlat, curveFlat]" "[curveHalf]" None
             "[curveHalf, curveLate]" None]
       a b c e e'
  show ?thesis by blast
qed




text \<open>
  C2, as the code has it. Neither engine sorts the points of a curve or forces its
  survival values to be non-increasing; both compute on the points as supplied.
  \<^const>\<open>logRankTest\<close> reads a curve only through its time-point map, which lists the
  supplied times in the order of their first occurrence, each with the survival as supplied
  of the last point of that time: two inputs with the same maps give the same result.
  \<^const>\<open>estimateCoxPH\<close> reads a curve only through its subtype, its list of times as
  supplied and, for each time, the survival as supplied of the first point of that time:
  two inputs that agree on these give the same result. For curves that are already sorted
  by time and whose survival values do not increase and do not exceed 1, the clean-up
  changes nothing, so there each engine returns on the cleaned curves what it returns on
  the supplied ones.
\<close>

theorem engines_compute_on_supplied_points:
  "map fst (buildTimePointMap tps) = rev (remdups (rev (map time tps)))
 \<and> map_of (buildTimePointMap tps) t = map_option survival (find (\<lambda>p. time p = t) (rev tps))
 \<and> (map (\<lambda>g. buildTimePointMap (timePoints g)) a = map (\<lambda>g. buildTimePointMap (timePoints g)) a'
      \<longrightarrow> logRankTest a = logRankTest a')
 \<and> (map subtype b = map subtype b'
      \<and> map (\<lambda>g. map time (timePoints g)) b = map (\<lambda>g. map time (timePoints g)) b'
      \<and> map (\<lambda>g. survivalAt (timePoints g)) b = map (\<lambda>g. survivalAt (timePoints g)) b'
      \<longrightarrow> estimateCoxPH b counts = estimateCoxPH b' counts)
 \<and> ((\<forall>c \<in> set cs. sorted (map time (timePoints c))
                     \<and> sorted_wrt (\<lambda>x y. y \<le> x) (1 # map survival (timePoints c)))
      \<longrightarrow> logRankTest (map cleanCurve cs) = logRankTest cs
          \<and> estimateCoxPH (map cleanCurve cs) counts' = estimateCoxPH cs counts')"
proof (intro conjI impI)
  show "map fst (buildTimePointMap tps) = rev (remdups (rev (map time tps)))"
    by (rule keys_order_buildTimePointMap)
  show "map_of (buildTimePointMap tps) t = map_option survival (find (\<lambda>p. time p = t) (rev tps))"
    by (rule map_of_buildTimePointMap)
  show "logRankTest a = logRankTest a'"
    if "map (\<lambda>g. buildTimePointMap (timePoints g)) a = map (\<lambda>g. buildTimePointMap (timePoints g)) a'"
    using that by (rule logRankTest_via_maps)
  show "estimateCoxPH b counts = estimateCoxPH b' counts"
    if "map subtype b = map subtype b'
        \<and> map (\<lambda>g. map time (timePoints g)) b = map (\<lambda>g. map time (timePoints g)) b'
        \<and> map (\<lambda>g. survivalAt (timePoints g)) b = map (\<lambda>g. survivalAt (timePoints g)) b'"
    using that by (intro estimateCoxPH_via_readings) simp_all
  assume clean: "\<forall>c \<in> set cs. sorted (map time (timePoints c))
                     \<and> sorted_wrt (\<lambda>x y. y \<le> x) (1 # map survival (timePoints c))"
  have id: "map cleanCurve cs = cs"
    using clean by (intro map_idI cleanCurve_id) auto
  show "logRankTest (map cleanCurve cs) = logRankTest cs" by (simp add: id)
  show "estimateCoxPH (map cleanCurve cs) counts' = estimateCoxPH cs counts'" by (simp add: id)
qed

theorem engines_compute_on_supplied_points_witness:
  "map fst (buildTimePointMap (timePoints dupCurve)) = [1]
 \<and> map_of (buildTimePointMap (timePoints dupCurve)) 1 = Some 0.5
 \<and> map (\<lambda>g. buildTimePointMap (timePoints g)) [dupCurve, curveHalf]
     = map (\<lambda>g. buildTimePointMap (timePoints g)) [curveHalf, curveHalf]
 \<and> dupCurve \<noteq> curveHalf
 \<and> logRankTest [dupCurve, curveHalf] = logRankTest [curveHalf, curveHalf]
 \<and> map subtype [dupCurve, curveHalf] = map subtype [dupCurveLow, curveHalf]
 \<and> map (\<lambda>g. map time (timePoints g)) [dupCurve, curveHalf]
     = map (\<lambda>g. map time (timePoints g)) [dupCurveLow, curveHalf]
 \<and> map (\<lambda>g. survivalAt (timePoints g)) [dupCurve, curveHalf]
     = map (\<lambda>g. survivalAt (timePoints g)) [dupCurveLow, curveHalf]
 \<and> dupCurve \<noteq> dupCurveLow
 \<and> estimateCoxPH [dupCurve, curveHalf] None = estimateCoxPH [dupCurveLow, curveHalf] None
 \<and> sorted (map time (timePoints declineA))
 \<and> sorted_wrt (\<lambda>x y. y \<le> x) (1 # map survival (timePoints declineA))
 \<and> sorted (map time (timePoints curveHalf))
 \<and> sorted_wrt (\<lambda>x y. y \<le> x) (1 # map survival (timePoints curveHalf))
 \<and> logRankTest (map cleanCurve [declineA, curveHalf]) = logRankTest [declineA, curveHalf]
 \<and> estimateCoxPH (map cleanCurve [declineA, curveHalf]) None
     = estimateCoxPH [declineA, curveHalf] None"
proof -
  have m: "map (\<lambda>g. buildTimePointMap (timePoints g)) [dupCurve, curveHalf]
         = map (\<lambda>g. buildTimePointMap (timePoints g)) [curveHalf, curveHalf]"
    by (simp add: buildTimePointMap_def dupCurve_def curveHalf_def pt_def)
  have d1: "dupCurve \<noteq> curveHalf" by (simp add: dupCurve_def curveHalf_def)
  have s: "map subtype [dupCurve, curveHalf] = map subtype [dupCurveLow, curveHalf]"
    by (simp add: dupCurve_def dupCurveLow_def)
  have t: "map (\<lambda>g. map time (timePoints g)) [dupCurve, curveHalf]
         = map (\<lambda>g. map time (timePoints g)) [dupCurveLow, curveHalf]"
    by (simp add: dupCurve_def dupCurveLow_def pt_def)
  have "survivalAt (timePoints dupCurve) = survivalAt (timePoints dupCurveLow)"
    by (rule ext) (simp add: survivalAt_def dupCurve_def dupCurveLow_def pt_def)
  then have r: "map (\<lambda>g. survivalAt (timePoints g)) [dupCurve, curveHalf]
         = map (\<lambda>g. survivalAt (timePoints g)) [dupCurveLow, curveHalf]"
    by simp
  have d2: "dupCurve \<noteq> dupCurveLow" by (simp add: dupCurve_def dupCurveLow_def pt_def)
  have c: "sorted (map time (timePoints declineA))"
          "sorted_wrt (\<lambda>x y. y \<le> x) (1 # map survival (timePoints declineA))"
          "sorted (map time (timePoints curveHalf))"
          "sorted_wrt (\<lambda>x y. y \<le> x) (1 # map survival (timePoints curveHalf))"
    by (simp_all add: declineA_def curveHalf_def pt_def)
  have c': "\<forall>c \<in> set [declineA, curveHalf]. sorted (map time (timePoints c))
                     \<and> sorted_wrt (\<lambda>x y. y \<le> x) (1 # map survival (timePoints c))"
    using c by simp
  have k: "rev (remdups (rev (map time (timePoints dupCurve)))) = [1]"
    by (simp add: dupCurve_def pt_def)
  have v: "map_option survival (find (\<lambda>p. time p = 1) (rev (timePoints dupCurve))) = Some 0.5"
    by (simp add: dupCurve_def pt_def)
  from engines_compute_on_supplied_points
         [of "timePoints dupCurve" 1 "[dupCurve, curveHalf]" "[curveHalf, curveHalf]"
             "[dupCurve, curveHalf]" "[dupCurveLow, curveHalf]" None "[declineA, curveHalf]" None]
       m d1 s t r d2 c c' k v
  show ?thesis by (simp only:) blast
qed

text \<open>
  The claim C2 as stated fails on a curve with a small upward bump (0.04, 0.06, 0.04):
  the log-rank statistic is \<open>2189/5219\<close> on the supplied curves and 0 on the cleaned ones,
  and the hazard-ratio estimator returns a result on the supplied curves and none on the
  cleaned ones.
\<close>

theorem engines_skip_cleaning_counterexample:
  "logRankTest [bumpA, bumpB] \<noteq> logRankTest (map cleanCurve [bumpA, bumpB])
   \<and> estimateCoxPH [bumpA, bumpB] None \<noteq> estimateCoxPH (map cleanCurve [bumpA, bumpB]) None"
proof
  show "logRankTest [bumpA, bumpB] \<noteq> logRankTest (map cleanCurve [bumpA, bumpB])"
  proof
    assume "logRankTest [bumpA, bumpB] = logRankTest (map cleanCurve [bumpA, bumpB])"
    then have "map_option chiSquare (logRankTest [bumpA, bumpB])
             = map_option chiSquare (logRankTest (map cleanCurve [bumpA, bumpB]))"
      by simp
    then show False
      unfolding logRank_bump_raw logRank_bump_clean by simp
  qed
  show "estimateCoxPH [bumpA, bumpB] None \<noteq> estimateCoxPH (map cleanCurve [bumpA, bumpB]) None"
    using cox_bump_raw unfolding cox_bump_clean .
qed

text \<open>
  C8, as the code has it. In every result of \<^const>\<open>estimateCoxPH\<close> computed with
  positive counts for the reference group and for the group of the entry (after the
  default of 100 for a missing or zero count), every entry has a positive hazard ratio,
  positive interval end points and a positive standard error; the interval contains the
  hazard ratio; the coefficient is the logarithm of the hazard ratio; and the end points
  are \<open>exp (coefficient \<plusminus> 1.96 * se)\<close>.
\<close>

theorem hazardRatioGroup_invariants:
  assumes "estimateCoxPH sd counts = Some r" and "g \<in> set (groups r)"
    and "0 < countOr100 counts (referenceGroup r)" and "0 < countOr100 counts (hr_subtype g)"
  shows "0 < hazardRatio g \<and> 0 < lowerCI g \<and> 0 < upperCI g \<and> 0 < se g
       \<and> lowerCI g \<le> hazardRatio g \<and> hazardRatio g \<le> upperCI g
       \<and> coefficient g = ln (hazardRatio g)
       \<and> lowerCI g = exp (coefficient g - 1.96 * se g)
       \<and> upperCI g = exp (coefficient g + 1.96 * se g)"
proof -
  note D = estimateCoxPH_SomeD[OF assms(1)]
  from assms(2) D(3) obtain grp where grp: "grp \<in> set (drop 1 sd)"
      "coxGroup (subtype (sd ! 0)) (timePoints (sd ! 0)) counts grp = Some g"
    by (auto simp: in_set_map_filter)
  note G = coxGroup_SomeD[OF grp(2)]
  let ?fl = "sqrt (1 / countOr100 counts (subtype (sd ! 0))
                   + 1 / countOr100 counts (subtype grp)) * 0.5"
  from G(6) obtain b where b: "0 \<le> b" "se g = max b ?fl"
    by blast
  have "0 < ?fl"
    using assms(3,4) D(2) G(2) by (intro sample_floor_pos) simp_all
  moreover have "?fl \<le> se g"
    unfolding b(2) by (rule max.cobounded2)
  ultimately have se: "0 < se g" by linarith
  have lo: "lowerCI g \<le> hazardRatio g" using se by (simp add: G(3,4))
  have hi: "hazardRatio g \<le> upperCI g" using se by (simp add: G(3,5))
  have co: "coefficient g = ln (hazardRatio g)" by (simp add: G(3))
  have p1: "0 < hazardRatio g" by (simp add: G(3))
  have p2: "0 < lowerCI g" by (simp add: G(4))
  have p3: "0 < upperCI g" by (simp add: G(5))
  from p1 p2 p3 se lo hi co G(4) G(5) show ?thesis by blast
qed

theorem hazardRatioGroup_invariants_witness:
  "\<exists>r g. estimateCoxPH [curveHalf, curveHalf] None = Some r \<and> g \<in> set (groups r)
         \<and> 0 < countOr100 None (referenceGroup r) \<and> 0 < countOr100 None (hr_subtype g)
         \<and> 0 < hazardRatio g \<and> 0 < lowerCI g \<and> 0 < upperCI g \<and> 0 < se g
         \<and> lowerCI g \<le> hazardRatio g \<and> hazardRatio g \<le> upperCI g
         \<and> coefficient g = ln (hazardRatio g)
         \<and> lowerCI g = exp (coefficient g - 1.96 * se g)
         \<and> upperCI g = exp (coefficient g + 1.96 * se g)"
proof -
  from cox_curveHalf obtain r g where
    r: "estimateCoxPH [curveHalf, curveHalf] None = Some r" and g: "groups r = [g]"
    by blast
  have mem: "g \<in> set (groups r)" by (simp add: g)
  have c1: "0 < countOr100 None (referenceGroup r)" by (simp add: countOr100_def)
  have c2: "0 < countOr100 None (hr_subtype g)" by (simp add: countOr100_def)
  from hazardRatioGroup_invariants[OF r mem c1 c2] r mem c1 c2
  show ?thesis by blast
qed

text \<open>
  The claim C8 as stated, for every result, fails when a supplied count is negative: with
  the counts 4 for the reference group and \<open>-4\<close> for the comparison group the floor is
  \<open>sqrt (1/4 - 1/4) * 0.5 = 0\<close>, the single sample has variance 0, and the entry of the
  result has the standard error 0.
\<close>

theorem hazardRatioGroup_negative_count_counterexample:
  "map_option (\<lambda>r. map se (groups r))
     (estimateCoxPH [curveHalf, curveHalfB] (Some [''A'' \<mapsto> 4, ''B'' \<mapsto> - 4])) = Some [0]"
  by (simp add: cox_defs countOr100_def curveHalf_def curveHalfB_def pt_def)

text \<open>
  C9. In \<^const>\<open>estimateCoxPH\<close>, with positive counts \<open>n1\<close> of the reference group and
  \<open>n2\<close> of the comparison group, the standard error of every retained group is at least
  \<open>sqrt (1/n1 + 1/n2) * 0.5\<close>, which is positive, so no division by the standard error
  divides by zero; every retained group comes from a comparison group of the input, and
  when that group has exactly one valid hazard-ratio sample the standard error equals
  the floor.
\<close>

theorem standardError_floor:
  assumes "estimateCoxPH sd counts = Some r" and "g \<in> set (groups r)"
    and "0 < countOr100 counts (referenceGroup r)" and "0 < countOr100 counts (hr_subtype g)"
  shows "sqrt (1 / countOr100 counts (referenceGroup r)
               + 1 / countOr100 counts (hr_subtype g)) * 0.5 \<le> se g
       \<and> 0 < sqrt (1 / countOr100 counts (referenceGroup r)
                   + 1 / countOr100 counts (hr_subtype g)) * 0.5
       \<and> se g \<noteq> 0
       \<and> (\<exists>grp \<in> set (drop 1 sd).
             coxGroup (referenceGroup r) (timePoints (sd ! 0)) counts grp = Some g)
       \<and> (\<forall>grp \<in> set (drop 1 sd).
             coxGroup (referenceGroup r) (timePoints (sd ! 0)) counts grp = Some g
             \<and> length (hazardRatiosOf (timePoints (sd ! 0)) (timePoints grp)) = 1
             \<longrightarrow> se g = sqrt (1 / countOr100 counts (referenceGroup r)
                                + 1 / countOr100 counts (hr_subtype g)) * 0.5)"
proof -
  let ?fl = "sqrt (1 / countOr100 counts (referenceGroup r)
                   + 1 / countOr100 counts (hr_subtype g)) * 0.5"
  note D = estimateCoxPH_SomeD[OF assms(1)]
  from assms(2) D(3) obtain grp where grp: "grp \<in> set (drop 1 sd)"
      "coxGroup (subtype (sd ! 0)) (timePoints (sd ! 0)) counts grp = Some g"
    by (auto simp: in_set_map_filter)
  note G = coxGroup_SomeD[OF grp(2)]
  from G(6) obtain b where b: "0 \<le> b" "se g = max b ?fl"
    unfolding D(2) G(2) by blast
  have pos: "0 < ?fl" using assms(3,4) by (rule sample_floor_pos)
  have le: "?fl \<le> se g" unfolding b(2) by (rule max.cobounded2)
  have ex: "\<exists>grp \<in> set (drop 1 sd).
              coxGroup (referenceGroup r) (timePoints (sd ! 0)) counts grp = Some g"
    using grp D(2) by auto
  have one: "se g = ?fl"
    if "coxGroup (referenceGroup r) (timePoints (sd ! 0)) counts grp' = Some g"
       "length (hazardRatiosOf (timePoints (sd ! 0)) (timePoints grp')) = 1" for grp'
  proof -
    have "hr_subtype g = subtype grp'" using coxGroup_SomeD(2)[OF that(1)] .
    with coxGroup_single[OF that] pos show ?thesis by simp
  qed
  from pos le have nz: "se g \<noteq> 0" by linarith
  from pos le nz ex one show ?thesis by blast
qed

theorem standardError_floor_witness:
  "\<exists>r g. estimateCoxPH [curveHalf, curveHalf] None = Some r \<and> g \<in> set (groups r)
         \<and> 0 < countOr100 None (referenceGroup r) \<and> 0 < countOr100 None (hr_subtype g)
         \<and> coxGroup (referenceGroup r) (timePoints ([curveHalf, curveHalf] ! 0)) None curveHalf
             = Some g
         \<and> length (hazardRatiosOf (timePoints ([curveHalf, curveHalf] ! 0))
                     (timePoints curveHalf)) = 1
         \<and> se g = sqrt (1 / 100 + 1 / 100) * 0.5 \<and> se g \<noteq> 0"
proof -
  from cox_curveHalf obtain r g where
    r: "estimateCoxPH [curveHalf, curveHalf] None = Some r" and g: "groups r = [g]"
    and rg: "referenceGroup r = subtype curveHalf"
    and cg: "coxGroup (subtype curveHalf) (timePoints curveHalf) None curveHalf = Some g"
    by blast
  have mem: "g \<in> set (groups r)" by (simp add: g)
  have c1: "0 < countOr100 None (referenceGroup r)" by (simp add: countOr100_def)
  have c2: "0 < countOr100 None (hr_subtype g)" by (simp add: countOr100_def)
  have cg': "coxGroup (referenceGroup r) (timePoints ([curveHalf, curveHalf] ! 0)) None curveHalf
             = Some g"
    using cg by (simp add: rg)
  have len: "length (hazardRatiosOf (timePoints ([curveHalf, curveHalf] ! 0))
                       (timePoints curveHalf)) = 1"
    by (simp add: hazardRatiosOf_curveHalf)
  have grp: "curveHalf \<in> set (drop 1 [curveHalf, curveHalf])" by simp
  from standardError_floor[OF r mem c1 c2] grp cg' len
  have "se g = sqrt (1 / countOr100 None (referenceGroup r)
                     + 1 / countOr100 None (hr_subtype g)) * 0.5" and "se g \<noteq> 0"
    by blast+
  then have "se g = sqrt (1 / 100 + 1 / 100) * 0.5" and "se g \<noteq> 0"
    by (simp_all add: countOr100_def)
  with r mem c1 c2 cg' len show ?thesis by blast
qed

text \<open>
  C7, as the code has it. The estimator reads the survival at a time from the first point
  of the curve that carries this time. For every curve \<open>c\<close> that has a point with time
  above 0 and survival strictly between 0.05 and 0.99 which is the first point of \<open>c\<close>
  with its time, \<open>estimateCoxPH [c, c]\<close> returns a result with a single group, whose
  coefficient is 0 and whose hazard ratio is 1.
\<close>

theorem coxPH_reference_against_itself:
  assumes "find (\<lambda>q. time q = time p) (timePoints c) = Some p" and "0 < time p"
    and "0.05 < survival p" and "survival p < 0.99"
  shows "\<exists>r g. estimateCoxPH [c, c] counts = Some r \<and> groups r = [g]
               \<and> hazardRatio g = 1 \<and> coefficient g = 0"
proof -
  from coxGroup_self[OF hazardRatiosOf_self_nonempty[OF assms] hazardRatiosOf_self_all_one]
  obtain g where g: "coxGroup (subtype c) (timePoints c) counts c = Some g"
      "hazardRatio g = 1" "coefficient g = 0"
    by blast
  then show ?thesis
    by (simp add: estimateCoxPH_def Let_def)
qed

theorem coxPH_reference_against_itself_witness:
  "find (\<lambda>q. time q = time (pt 1 0.5)) (timePoints curveHalf) = Some (pt 1 0.5)
   \<and> 0 < time (pt 1 0.5) \<and> 0.05 < survival (pt 1 0.5) \<and> survival (pt 1 0.5) < 0.99
   \<and> (\<exists>r g. estimateCoxPH [curveHalf, curveHalf] None = Some r \<and> groups r = [g]
             \<and> hazardRatio g = 1 \<and> coefficient g = 0)"
proof -
  have a: "find (\<lambda>q. time q = time (pt 1 0.5)) (timePoints curveHalf) = Some (pt 1 0.5)"
    by (simp add: curveHalf_def)
  have b: "0 < time (pt 1 0.5)" "0.05 < survival (pt 1 0.5)" "survival (pt 1 0.5) < 0.99"
    by (simp_all add: pt_def)
  from coxPH_reference_against_itself[OF a b, of None] a b
  show ?thesis by blast
qed

text \<open>
  The claim C7 as stated fails on a curve with two points at the same time: the second
  point has time 1 and survival 0.5, but the estimator reads the first point of time 1,
  whose survival 0.995 is out of range, and returns no result.
\<close>

theorem coxPH_duplicate_time_counterexample:
  "pt 1 0.5 \<in> set (timePoints dupCurve)
   \<and> 0 < time (pt 1 0.5) \<and> 0.05 < survival (pt 1 0.5) \<and> survival (pt 1 0.5) < 0.99
   \<and> estimateCoxPH [dupCurve, dupCurve] None = None"
  by (simp add: cox_defs dupCurve_def pt_def)

text \<open>
  C10. Two inputs that agree, group by group and in the same order, on the subtype and on
  the sequence of times and of survival values give the same result in both engines,
  whatever their censoring, event and at-risk fields are: the engines read only the time
  and the survival of a point.
\<close>

theorem engines_ignore_censoring_fields:
  assumes sub: "map subtype sd1 = map subtype sd2"
    and tim: "map (\<lambda>g. map time (timePoints g)) sd1 = map (\<lambda>g. map time (timePoints g)) sd2"
    and sur: "map (\<lambda>g. map survival (timePoints g)) sd1 = map (\<lambda>g. map survival (timePoints g)) sd2"
  shows "logRankTest sd1 = logRankTest sd2 \<and> estimateCoxPH sd1 counts = estimateCoxPH sd2 counts"
proof -
  have len: "length sd2 = length sd1" using sub by (rule map_eq_imp_length_eq[symmetric])
  have n1: "subtype (sd1 ! i) = subtype (sd2 ! i)" if "i < length sd1" for i
    using map_eq_nthD[OF sub that] .
  have n2: "map time (timePoints (sd1 ! i)) = map time (timePoints (sd2 ! i))" if "i < length sd1" for i
    using map_eq_nthD[OF tim that] .
  have n3: "map survival (timePoints (sd1 ! i)) = map survival (timePoints (sd2 ! i))" if "i < length sd1" for i
    using map_eq_nthD[OF sur that] .
  have times: "sortedTimesOf sd1 = sortedTimesOf sd2"
    unfolding sortedTimesOf_def tim ..
  have gd: "map (buildGroupData ts) sd1 = map (buildGroupData ts) sd2" for ts
  proof (rule nth_equalityI)
    show "length (map (buildGroupData ts) sd1) = length (map (buildGroupData ts) sd2)"
      by (simp add: len)
    fix i assume "i < length (map (buildGroupData ts) sd1)"
    then have i: "i < length sd1" by simp
    then show "map (buildGroupData ts) sd1 ! i = map (buildGroupData ts) sd2 ! i"
      by (simp add: len buildGroupData_cong[OF n1[OF i] n2[OF i] n3[OF i]])
  qed
  have lr: "logRankTest sd1 = logRankTest sd2"
    unfolding logRankTest_def logRankSums_def times gd len ..
  have cox: "estimateCoxPH sd1 counts = estimateCoxPH sd2 counts"
  proof (cases "length sd1 < 2")
    case True
    then show ?thesis by (simp add: estimateCoxPH_def len)
  next
    case False
    then have z: "0 < length sd1" by (cases sd1) simp_all
    have "map (coxGroup (subtype (sd1 ! 0)) (timePoints (sd1 ! 0)) counts) (drop 1 sd1)
        = map (coxGroup (subtype (sd2 ! 0)) (timePoints (sd2 ! 0)) counts) (drop 1 sd2)"
    proof (rule nth_equalityI)
      show "length (map (coxGroup (subtype (sd1 ! 0)) (timePoints (sd1 ! 0)) counts) (drop 1 sd1))
          = length (map (coxGroup (subtype (sd2 ! 0)) (timePoints (sd2 ! 0)) counts) (drop 1 sd2))"
        by (simp add: len)
      fix i assume "i < length (map (coxGroup (subtype (sd1 ! 0)) (timePoints (sd1 ! 0)) counts) (drop 1 sd1))"
      then have i: "Suc i < length sd1" by simp
      have "coxGroup (subtype (sd1 ! 0)) (timePoints (sd1 ! 0)) counts (sd1 ! Suc i)
          = coxGroup (subtype (sd1 ! 0)) (timePoints (sd2 ! 0)) counts (sd2 ! Suc i)"
        by (rule coxGroup_cong[OF n2[OF z] n3[OF z] n1[OF i] n2[OF i] n3[OF i]])
      with i show "map (coxGroup (subtype (sd1 ! 0)) (timePoints (sd1 ! 0)) counts) (drop 1 sd1) ! i
          = map (coxGroup (subtype (sd2 ! 0)) (timePoints (sd2 ! 0)) counts) (drop 1 sd2) ! i"
        by (simp add: len n1[OF z])
    qed
    from map_filter_cong_map[OF this] show ?thesis
      by (simp add: estimateCoxPH_def len n1[OF z])
  qed
  from lr cox show ?thesis ..
qed

theorem engines_ignore_censoring_fields_witness:
  "map subtype [curveHalf, curveHalf] = map subtype [curveHalfCounted, curveHalf]
   \<and> map (\<lambda>g. map time (timePoints g)) [curveHalf, curveHalf]
       = map (\<lambda>g. map time (timePoints g)) [curveHalfCounted, curveHalf]
   \<and> map (\<lambda>g. map survival (timePoints g)) [curveHalf, curveHalf]
       = map (\<lambda>g. map survival (timePoints g)) [curveHalfCounted, curveHalf]
   \<and> curveHalf \<noteq> curveHalfCounted
   \<and> logRankTest [curveHalf, curveHalf] = logRankTest [curveHalfCounted, curveHalf]
   \<and> estimateCoxPH [curveHalf, curveHalf] None = estimateCoxPH [curveHalfCounted, curveHalf] None"
proof -
  have a: "map subtype [curveHalf, curveHalf] = map subtype [curveHalfCounted, curveHalf]"
    by (simp add: curveHalf_def curveHalfCounted_def)
  have b: "map (\<lambda>g. map time (timePoints g)) [curveHalf, curveHalf]
         = map (\<lambda>g. map time (timePoints g)) [curveHalfCounted, curveHalf]"
    by (simp add: curveHalf_def curveHalfCounted_def pt_def)
  have c: "map (\<lambda>g. map survival (timePoints g)) [curveHalf, curveHalf]
         = map (\<lambda>g. map survival (timePoints g)) [curveHalfCounted, curveHalf]"
    by (simp add: curveHalf_def curveHalfCounted_def pt_def)
  have d: "curveHalf \<noteq> curveHalfCounted"
    by (simp add: curveHalf_def curveHalfCounted_def pt_def)
  from engines_ignore_censoring_fields[OF a b c, of None] a b c d
  show ?thesis by blast
qed

text \<open>
  C3, evaluated on the code at \<open>chiSquare = 1\<close> with one degree of freedom. The inline
  code of \<^const>\<open>chiSquarePValue\<close> passes \<open>1 / (1 + p * z)\<close> to the polynomial where
  \<^const>\<open>normalCDF\<close> passes \<open>1 / (1 + p * z / sqrt 2)\<close>, so the p-value it returns is
  strictly below \<open>2 * (1 - normalCDF (sqrt chiSquare))\<close>.
\<close>

theorem inline_normalCDF_differs_at_one: "chiSquarePValue 1 1 < 2 * (1 - normalCDF (sqrt 1))"
proof -
  have l: "chiSquarePValue 1 1 = hornerAS (1 / (1 + 0.3275911)) * exp (- 1 / 2)"
    using chiSquarePValue_df1[of 1] by simp
  have r: "2 * (1 - normalCDF (sqrt 1)) = hornerAS (1 / (1 + 0.3275911 * (1 / sqrt 2))) * exp (- 1 / 2)"
    using normalCDF_upper_tail[of 1] by simp
  have "hornerAS (1 / (1 + 0.3275911)) < hornerAS (1 / (1 + 0.3275911 * (1 / sqrt 2)))"
    by (rule less_trans[OF hornerAS_t2 hornerAS_lower[OF t1_bounds]])
  then show ?thesis unfolding l r by (rule mult_strict_right_mono) simp
qed

end
